theory Spec2Isabelle
  imports Complex_Main
begin

section \<open>Values of the Go runtime that the decoder handles\<close>

text \<open>
  The kinds of \<^verbatim>\<open>reflect.Kind\<close>, in the order of the Go declaration.
\<close>

datatype Kind =
    reflect_Invalid | reflect_Bool
  | reflect_Int | reflect_Int8 | reflect_Int16 | reflect_Int32 | reflect_Int64
  | reflect_Uint | reflect_Uint8 | reflect_Uint16 | reflect_Uint32 | reflect_Uint64
  | reflect_Uintptr
  | reflect_Float32 | reflect_Float64
  | reflect_Complex64 | reflect_Complex128
  | reflect_Array | reflect_Chan | reflect_Func | reflect_Interface | reflect_Map
  | reflect_Ptr | reflect_Slice | reflect_String | reflect_Struct
  | reflect_UnsafePointer

text \<open>
  Error values. The four package-level sentinels of \<^verbatim>\<open>csv.go\<close>, the errors built
  with \<^verbatim>\<open>fmt.Errorf\<close> (kept as their message), \<^verbatim>\<open>*strconv.NumError\<close> with its
  fields Func, Num and Err, and any other error value that reaches the decoder from
  outside (a sentinel of \<^verbatim>\<open>encoding/csv\<close>, an I/O error), kept as its name or
  message.
\<close>

datatype num_err = ErrSyntax | ErrRange

datatype plain_error =
    ErrNoStruct
  | ErrNoValidRecords
  | ErrHeaderNotComplete
  | ErrUnsupportedCSVType
  | fmt_Errorf string
  | NumError string string num_err
  | foreign_error string

text \<open>\<^verbatim>\<open>csv.ParseError\<close> with the three fields the decoder reads and writes.\<close>

record ParseError =
  Line :: int
  Column :: int
  Err :: plain_error

type_synonym ParseErrors = "ParseError list"

text \<open>
  What an \<^verbatim>\<open>error\<close> returned by \<^verbatim>\<open>Unmarshal\<close> can hold: nil, a
  \<^verbatim>\<open>*csv.ParseError\<close>, the aggregate \<^verbatim>\<open>ParseErrors\<close>, or another error value.
\<close>

datatype error =
    nil
  | ParseError_ptr ParseError
  | ParseErrors_val ParseErrors
  | plain plain_error

text \<open>
  The argument \<^verbatim>\<open>s interface{}\<close>: the nil interface, or a value with the kind of
  its type and, for a struct, the fields that \<^verbatim>\<open>reflections.Fields\<close> lists (the
  exported ones, in declaration order), each with its name, the value of its
  \<^verbatim>\<open>csv\<close> tag key (empty when the key is absent) and the kind of its type. Field
  types are identified with the predeclared type of their kind.
\<close>

record StructField =
  sfName :: string
  sfTag :: string
  sfKind :: Kind

datatype go_value = nil_interface | go_val Kind "StructField list"

text \<open>
  Outcome of a call that can return a value, return an error, or panic at run time.
\<close>

datatype 'a go_result = Panicked | Failed plain_error | Ok 'a

section \<open>The functions of strconv that the decoder calls\<close>

text \<open>
  \<^verbatim>\<open>strconv.ParseBool\<close>: the twelve literals of the Go standard library, anything
  else is a syntax error.
\<close>

definition strconv_ParseBool :: "string \<Rightarrow> plain_error + bool" where
  "strconv_ParseBool str =
     (if str = ''1'' \<or> str = ''t'' \<or> str = ''T'' \<or> str = ''true'' \<or> str = ''TRUE'' \<or> str = ''True''
      then Inr True
      else if str = ''0'' \<or> str = ''f'' \<or> str = ''F'' \<or> str = ''false'' \<or> str = ''FALSE'' \<or> str = ''False''
      then Inr False
      else Inl (NumError ''ParseBool'' str ErrSyntax))"

text \<open>
  \<^verbatim>\<open>strconv.Atoi\<close> is \<^verbatim>\<open>ParseInt(s, 10, 0)\<close> with the function name of the error
  replaced by Atoi; the
  size of \<^verbatim>\<open>int\<close> is taken to be 64 bits. \<^verbatim>\<open>ParseUint\<close> scans the bytes from the
  left and stops at the first byte that is not a decimal digit (syntax error) or at the
  first digit that takes the value past \<open>2^64 - 1\<close> (range error), whichever comes first.
\<close>

definition is_digit :: "char \<Rightarrow> bool" where
  "is_digit c = (48 \<le> (of_char c :: nat) \<and> (of_char c :: nat) \<le> 57)"

definition digit_val :: "char \<Rightarrow> nat" where
  "digit_val c = (of_char c :: nat) - 48"

definition maxUint64 :: nat where
  "maxUint64 = 18446744073709551615"

fun ParseUint_digits :: "nat \<Rightarrow> string \<Rightarrow> num_err + nat" where
  "ParseUint_digits n [] = Inr n"
| "ParseUint_digits n (c # cs) =
     (if \<not> is_digit c then Inl ErrSyntax
      else if n \<ge> maxUint64 div 10 + 1 then Inl ErrRange
      else (let n1 = n * 10 + digit_val c in
            if n1 > maxUint64 then Inl ErrRange else ParseUint_digits n1 cs))"

definition strconv_ParseUint :: "string \<Rightarrow> num_err + nat" where
  "strconv_ParseUint s = (if s = [] then Inl ErrSyntax else ParseUint_digits 0 s)"

definition strconv_ParseInt :: "string \<Rightarrow> num_err + int" where
  "strconv_ParseInt s =
     (case s of
        [] \<Rightarrow> Inl ErrSyntax
      | c # cs \<Rightarrow>
          (let neg = (c = CHR ''-'');
               digits = (if c = CHR ''+'' \<or> c = CHR ''-'' then cs else s)
           in case strconv_ParseUint digits of
                Inl ErrSyntax \<Rightarrow> Inl ErrSyntax
              | Inl ErrRange \<Rightarrow> Inl ErrRange
              | Inr un \<Rightarrow>
                  if \<not> neg \<and> un \<ge> 2 ^ 63 then Inl ErrRange
                  else if neg \<and> un > 2 ^ 63 then Inl ErrRange
                  else Inr (if neg then - int un else int un)))"

definition strconv_Atoi :: "string \<Rightarrow> plain_error + int" where
  "strconv_Atoi s =
     (case strconv_ParseInt s of
        Inl e \<Rightarrow> Inl (NumError ''Atoi'' s e)
      | Inr n \<Rightarrow> Inr n)"

section \<open>Schema extraction\<close>

record fieldInfo =
  position :: int
  headerName :: string
  fieldName :: string
  kind :: Kind

type_synonym fieldInfos = "fieldInfo list"

text \<open>\<^verbatim>\<open>isComplete\<close>: false at the first descriptor whose position is negative.\<close>

fun isComplete :: "fieldInfos \<Rightarrow> bool" where
  "isComplete [] = True"
| "isComplete (fi # fis) = (if position fi < 0 then False else isComplete fis)"

text \<open>\<^verbatim>\<open>strings.Contains(s, substr)\<close>: \<open>substr\<close> starts at some offset of \<open>s\<close>.\<close>

fun strings_Contains :: "string \<Rightarrow> string \<Rightarrow> bool" where
  "strings_Contains [] substr = (substr = [])"
| "strings_Contains (c # s) substr =
     (take (length substr) (c # s) = substr \<or> strings_Contains s substr)"

text \<open>
  The loop of \<^verbatim>\<open>createFieldInfos\<close> over the field names, with the map
  \<^verbatim>\<open>headerNameMap\<close> and the slice \<^verbatim>\<open>fieldInfos\<close> built so far. The order of the
  checks is the source's: the dash test, the duplicate test, the insertion into the map,
  and only then the test for an empty tag. The calls into \<^verbatim>\<open>reflections\<close> cannot
  fail on a field that \<^verbatim>\<open>reflections.Fields\<close> has just listed.
\<close>

fun createFieldInfos_loop ::
  "StructField list \<Rightarrow> (string \<rightharpoonup> unit) \<Rightarrow> fieldInfos \<Rightarrow> fieldInfos go_result" where
  "createFieldInfos_loop [] headerNameMap fis = Ok fis"
| "createFieldInfos_loop (f # fs) headerNameMap fis =
     (if strings_Contains (sfTag f) ''-'' then createFieldInfos_loop fs headerNameMap fis
      else if headerNameMap (sfTag f) \<noteq> None
      then Failed (fmt_Errorf (''duplicate csv tag name: '' @ sfTag f))
      else (let headerNameMap' = headerNameMap(sfTag f \<mapsto> ()) in
            if length (sfTag f) = 0
            then Failed (fmt_Errorf (''empty csv tag for field: '' @ sfName f))
            else createFieldInfos_loop fs headerNameMap'
                   (fis @ [\<lparr>position = - 1, headerName = sfTag f, fieldName = sfName f,
                            kind = sfKind f\<rparr>])))"

text \<open>
  \<^verbatim>\<open>createFieldInfos\<close>: \<^verbatim>\<open>reflect.TypeOf(nil)\<close> is the nil type, whose
  \<^verbatim>\<open>Kind()\<close> call panics; a value of another kind than Struct is refused.
\<close>

definition createFieldInfos :: "go_value \<Rightarrow> fieldInfos go_result" where
  "createFieldInfos s =
     (case s of
        nil_interface \<Rightarrow> Panicked
      | go_val k flds \<Rightarrow>
          if k \<noteq> reflect_Struct then Failed ErrNoStruct
          else createFieldInfos_loop flds Map.empty [])"

text \<open>\<^verbatim>\<open>stringSlice.pos\<close>: the index of the first equal cell, or -1.\<close>

fun pos_from :: "int \<Rightarrow> string list \<Rightarrow> string \<Rightarrow> int" where
  "pos_from i [] item = - 1"
| "pos_from i (v # s) item = (if item = v then i else pos_from (i + 1) s item)"

definition pos :: "string list \<Rightarrow> string \<Rightarrow> int" where
  "pos s item = pos_from 0 s item"

section \<open>The marshaler\<close>

text \<open>
  The row source. \<^verbatim>\<open>m.Reader\<close> is the \<^verbatim>\<open>csv.Reader\<close> of the standard library;
  the decoder only calls \<^verbatim>\<open>Read\<close> on it. It is modelled by the results of the
  successive calls up to the first \<^verbatim>\<open>io.EOF\<close>: a row of cells, a failure that is a
  \<^verbatim>\<open>*csv.ParseError\<close>, or a failure that is any other error. The end of the list is
  \<^verbatim>\<open>io.EOF\<close>; a source that never reaches it is not described.
\<close>

datatype read_result =
    Row "string list"
  | ParseFailure ParseError
  | OtherFailure plain_error

record Marshaler =
  Reader :: "read_result list"
  fieldInfos :: fieldInfos
  endPointStruct :: go_value
  errors :: ParseErrors
  Lazy :: bool

definition NewMarshaler :: "go_value \<Rightarrow> read_result list \<Rightarrow> Marshaler go_result" where
  "NewMarshaler s r =
     (case createFieldInfos s of
        Panicked \<Rightarrow> Panicked
      | Failed e \<Rightarrow> Failed e
      | Ok fis \<Rightarrow>
          Ok \<lparr>Reader = r, fieldInfos = fis, endPointStruct = s, errors = [], Lazy = False\<rparr>)"

section \<open>Decoded records\<close>

text \<open>
  A value stored in a field of the target struct. The type \<open>'f\<close> stands for
  \<^verbatim>\<open>float64\<close>, which is left abstract. A value carries the kind of its type, so that
  the type comparison of \<^verbatim>\<open>reflections.SetField\<close> can be made: \<^verbatim>\<open>ParseBool\<close>
  yields a \<^verbatim>\<open>bool\<close>, \<^verbatim>\<open>Atoi\<close> an \<^verbatim>\<open>int\<close>, \<^verbatim>\<open>ParseFloat\<close> a
  \<^verbatim>\<open>float64\<close>. A struct value is the list of its fields with their values.
\<close>

datatype 'f field_value =
    bool_val bool
  | int_val Kind int
  | float_val Kind 'f
  | string_val string
  | zero_val Kind

type_synonym 'f struct_value = "(string \<times> 'f field_value) list"

fun type_of_val :: "'f field_value \<Rightarrow> Kind" where
  "type_of_val (bool_val b) = reflect_Bool"
| "type_of_val (int_val k n) = k"
| "type_of_val (float_val k x) = k"
| "type_of_val (string_val s) = reflect_String"
| "type_of_val (zero_val k) = k"

definition int_kind :: "Kind \<Rightarrow> bool" where
  "int_kind k = (k = reflect_Int \<or> k = reflect_Int8 \<or> k = reflect_Int16
                 \<or> k = reflect_Int32 \<or> k = reflect_Int64)"

definition float_kind :: "Kind \<Rightarrow> bool" where
  "float_kind k = (k = reflect_Float32 \<or> k = reflect_Float64)"

text \<open>The zero value of a field, as \<^verbatim>\<open>reflect.New\<close> leaves it.\<close>

definition zero_value :: "Kind \<Rightarrow> ('f::zero) field_value" where
  "zero_value k =
     (if k = reflect_Bool then bool_val False
      else if int_kind k then int_val k 0
      else if float_kind k then float_val k 0
      else if k = reflect_String then string_val []
      else zero_val k)"

text \<open>
  \<^verbatim>\<open>reflect.New(reflect.TypeOf(m.endPointStruct))\<close>: a fresh struct with every field
  at its zero value. \<^verbatim>\<open>Unmarshal\<close> is only reached with a struct, since
  \<^verbatim>\<open>NewMarshaler\<close> refuses everything else.
\<close>

definition new_struct :: "go_value \<Rightarrow> ('f::zero) struct_value" where
  "new_struct s =
     (case s of
        nil_interface \<Rightarrow> []
      | go_val k flds \<Rightarrow> map (\<lambda>f. (sfName f, zero_value (sfKind f))) flds)"

text \<open>
  \<^verbatim>\<open>reflections.SetField(sPtr, name, value)\<close>: stores the value when the field exists
  and its type is the value's type, and returns an error otherwise. The decoder drops
  that error, so the struct is then left as it was.
\<close>

definition SetField :: "'f struct_value \<Rightarrow> string \<Rightarrow> 'f field_value \<Rightarrow> 'f struct_value" where
  "SetField obj name v =
     map (\<lambda>(n, old). if n = name \<and> type_of_val old = type_of_val v then (n, v) else (n, old)) obj"

section \<open>Decoding a row\<close>

text \<open>The index expression \<^verbatim>\<open>record[i]\<close>: out of range is a run-time panic.\<close>

definition index_row :: "string list \<Rightarrow> int \<Rightarrow> string option" where
  "index_row record i =
     (if 0 \<le> i \<and> i < int (length record) then Some (record ! nat i) else None)"

datatype 'f cell_result = index_panic | cell_error plain_error | cell_value "'f field_value"

text \<open>
  The \<^verbatim>\<open>switch fieldInfo.kind\<close> of \<^verbatim>\<open>Unmarshal\<close>. \<^verbatim>\<open>strconv.ParseFloat\<close> is
  a parameter: a function from the cell to an error or a \<^verbatim>\<open>float64\<close>. The default
  branch does not read the row.
\<close>

definition decode_cell ::
  "(string \<Rightarrow> plain_error + 'f) \<Rightarrow> Kind \<Rightarrow> string list \<Rightarrow> int \<Rightarrow> 'f cell_result" where
  "decode_cell ParseFloat k record p =
     (if k = reflect_Bool then
        (case index_row record p of
           None \<Rightarrow> index_panic
         | Some c \<Rightarrow> (case strconv_ParseBool c of
                        Inl e \<Rightarrow> cell_error e
                      | Inr b \<Rightarrow> cell_value (bool_val b)))
      else if int_kind k then
        (case index_row record p of
           None \<Rightarrow> index_panic
         | Some c \<Rightarrow> (case strconv_Atoi c of
                        Inl e \<Rightarrow> cell_error e
                      | Inr n \<Rightarrow> cell_value (int_val reflect_Int n)))
      else if float_kind k then
        (case index_row record p of
           None \<Rightarrow> index_panic
         | Some c \<Rightarrow> (case ParseFloat c of
                        Inl e \<Rightarrow> cell_error e
                      | Inr x \<Rightarrow> cell_value (float_val reflect_Float64 x)))
      else if k = reflect_String then
        (case index_row record p of
           None \<Rightarrow> index_panic
         | Some c \<Rightarrow> cell_value (string_val c))
      else cell_error ErrUnsupportedCSVType)"

text \<open>
  The loop over \<^verbatim>\<open>m.fieldInfos\<close> for one data row. At the first field that fails,
  the loop is left by \<^verbatim>\<open>break\<close> with one error entry; the struct keeps the fields
  set before.
\<close>

datatype 'f row_result = row_panic | row_done "ParseError option" "'f struct_value"

fun decode_fields ::
  "(string \<Rightarrow> plain_error + 'f) \<Rightarrow> int \<Rightarrow> string list \<Rightarrow> fieldInfos \<Rightarrow> 'f struct_value
     \<Rightarrow> 'f row_result" where
  "decode_fields ParseFloat line record [] sPtr = row_done None sPtr"
| "decode_fields ParseFloat line record (fi # fis) sPtr =
     (case decode_cell ParseFloat (kind fi) record (position fi) of
        index_panic \<Rightarrow> row_panic
      | cell_error e \<Rightarrow> row_done (Some \<lparr>Line = line, Column = position fi, Err = e\<rparr>) sPtr
      | cell_value v \<Rightarrow> decode_fields ParseFloat line record fis (SetField sPtr (fieldName fi) v))"

section \<open>Unmarshal\<close>

text \<open>
  Header resolution, the loop under \<^verbatim>\<open>if line == 1\<close>: a descriptor whose header name
  is found takes the index, the others keep their position.
\<close>

definition resolve_header :: "string list \<Rightarrow> fieldInfos \<Rightarrow> fieldInfos" where
  "resolve_header record fis =
     map (\<lambda>fi. if pos record (headerName fi) \<ge> 0
               then fi\<lparr>position := pos record (headerName fi)\<rparr> else fi) fis"

text \<open>
  What a call of \<^verbatim>\<open>Unmarshal\<close> does: it panics, or it returns the slice of decoded
  structs (the nil slice is the empty list) and an error.
\<close>

datatype 'f outcome = Panic | Return "'f struct_value list" error

text \<open>
  The \<^verbatim>\<open>for\<close> loop of \<^verbatim>\<open>Unmarshal\<close>, one equation per call of \<^verbatim>\<open>Read\<close>. The
  marshaler carries \<^verbatim>\<open>fieldInfos\<close> and \<^verbatim>\<open>errors\<close>, which the loop updates;
  \<open>line\<close> is the counter before its increment, \<open>structs\<close> the slice built so far.
  After a row has been decoded the struct is appended whether or not a field failed:
  the \<^verbatim>\<open>break\<close> leaves the loop over the fields only.
\<close>

fun Unmarshal_loop ::
  "(string \<Rightarrow> plain_error + 'f) \<Rightarrow> Marshaler \<Rightarrow> int \<Rightarrow> ('f::zero) struct_value list
     \<Rightarrow> read_result list \<Rightarrow> 'f outcome" where
  "Unmarshal_loop ParseFloat m line structs [] =
     (if length (errors m) = 0 then Return structs nil
      else Return structs (ParseErrors_val (errors m)))"
| "Unmarshal_loop ParseFloat m line structs (ParseFailure pe # rest) =
     (if \<not> Lazy m then Return [] (ParseError_ptr pe)
      else Unmarshal_loop ParseFloat (m\<lparr>errors := errors m @ [pe]\<rparr>) (line + 1) structs rest)"
| "Unmarshal_loop ParseFloat m line structs (OtherFailure e # rest) =
     (if \<not> Lazy m then Return [] (plain e)
      else Unmarshal_loop ParseFloat m (line + 1) structs rest)"
| "Unmarshal_loop ParseFloat m line structs (Row record # rest) =
     (if line + 1 = 1 then
        (if \<not> isComplete (resolve_header record (fieldInfos m))
         then Return [] (ParseError_ptr \<lparr>Line = 0, Column = 0, Err = ErrHeaderNotComplete\<rparr>)
         else Unmarshal_loop ParseFloat
                (m\<lparr>fieldInfos := resolve_header record (fieldInfos m)\<rparr>) (line + 1) structs rest)
      else
        (case decode_fields ParseFloat (line + 1) record (fieldInfos m)
                (new_struct (endPointStruct m)) of
           row_panic \<Rightarrow> Panic
         | row_done None v \<Rightarrow> Unmarshal_loop ParseFloat m (line + 1) (structs @ [v]) rest
         | row_done (Some pe) v \<Rightarrow>
             Unmarshal_loop ParseFloat (m\<lparr>errors := errors m @ [pe]\<rparr>) (line + 1)
               (structs @ [v]) rest))"

definition Unmarshal :: "(string \<Rightarrow> plain_error + 'f) \<Rightarrow> Marshaler \<Rightarrow> ('f::zero) outcome" where
  "Unmarshal ParseFloat m = Unmarshal_loop ParseFloat m 0 [] (Reader m)"

section \<open>The example program's struct and a sample ParseFloat\<close>

text \<open>\<^verbatim>\<open>TestStruct\<close> of \<^verbatim>\<open>example/example.go\<close> and of the tests.\<close>

definition TestStruct :: go_value where
  "TestStruct = go_val reflect_Struct
     [\<lparr>sfName = ''Field0'', sfTag = ''FIELD_0'', sfKind = reflect_String\<rparr>,
      \<lparr>sfName = ''Field1'', sfTag = ''FIELD_1'', sfKind = reflect_Int\<rparr>,
      \<lparr>sfName = ''Field2'', sfTag = ''FIELD_2'', sfKind = reflect_Bool\<rparr>,
      \<lparr>sfName = ''Field3'', sfTag = ''FIELD_3'', sfKind = reflect_Float64\<rparr>,
      \<lparr>sfName = ''IngnoredStruct'', sfTag = ''-'', sfKind = reflect_Bool\<rparr>]"

text \<open>
  A sample instance of the parameter \<open>ParseFloat\<close>, used where a statement is evaluated
  on a concrete input. It reads an optional sign, digits, and an optional point followed
  by digits, and keeps the exact value as a rational; it declines every other literal,
  among them the exponent, hexadecimal, infinity and NaN forms that Go accepts. The
  general theorems below hold for every \<open>ParseFloat\<close>.
\<close>

definition decimal_nat :: "string \<Rightarrow> nat" where
  "decimal_nat s = foldl (\<lambda>n c. n * 10 + digit_val c) 0 s"

definition ParseFloat_decimal :: "string \<Rightarrow> plain_error + rat" where
  "ParseFloat_decimal s =
     (let signed = (s \<noteq> [] \<and> (hd s = CHR ''+'' \<or> hd s = CHR ''-''));
          neg = (s \<noteq> [] \<and> hd s = CHR ''-'');
          body = (if signed then tl s else s);
          ip = takeWhile is_digit body;
          rest = dropWhile is_digit body;
          fp = (if rest = [] then [] else tl rest)
      in if (rest = [] \<or> hd rest = CHR ''.'') \<and> list_all is_digit fp \<and> \<not> (ip = [] \<and> fp = [])
         then Inr ((if neg then - 1 else 1) *
                   (of_nat (decimal_nat ip) + of_nat (decimal_nat fp) / 10 ^ length fp))
         else Inl (NumError ''ParseFloat'' s ErrSyntax))"

text \<open>
  Construction followed by a call of \<^verbatim>\<open>Unmarshal\<close>, with the public field
  \<^verbatim>\<open>Lazy\<close> set in between, as the example program and the tests do.
\<close>

definition decode_all ::
  "(string \<Rightarrow> plain_error + 'f) \<Rightarrow> go_value \<Rightarrow> bool \<Rightarrow> read_result list
     \<Rightarrow> ('f::zero) outcome go_result" where
  "decode_all ParseFloat s lazy r =
     (case NewMarshaler s r of
        Panicked \<Rightarrow> Panicked
      | Failed e \<Rightarrow> Failed e
      | Ok m \<Rightarrow> Ok (Unmarshal ParseFloat (m\<lparr>Lazy := lazy\<rparr>)))"

section \<open>Notions used to state the properties\<close>

text \<open>The descriptor that schema extraction builds for a field.\<close>

definition descriptor_of :: "StructField \<Rightarrow> fieldInfo" where
  "descriptor_of f =
     \<lparr>position = - 1, headerName = sfTag f, fieldName = sfName f, kind = sfKind f\<rparr>"

text \<open>The fields whose tag holds no dash, and their tags.\<close>

definition dash_free :: "StructField list \<Rightarrow> StructField list" where
  "dash_free fs = filter (\<lambda>f. CHR ''-'' \<notin> set (sfTag f)) fs"

definition dash_free_tags :: "StructField list \<Rightarrow> string list" where
  "dash_free_tags fs = map sfTag (dash_free fs)"

text \<open>The error that \<^verbatim>\<open>Unmarshal\<close> returns at the end of input.\<close>

definition aggregate :: "ParseErrors \<Rightarrow> error" where
  "aggregate es = (if es = [] then nil else ParseErrors_val es)"

text \<open>The reads paired with their line numbers, the counter being \<open>line\<close> before them.\<close>

fun numbered :: "int \<Rightarrow> 'a list \<Rightarrow> (int \<times> 'a) list" where
  "numbered line [] = []"
| "numbered line (r # rs) = (line + 1, r) # numbered (line + 1) rs"

text \<open>
  What one read past the header adds to \<^verbatim>\<open>m.errors\<close> and to the output slice, read
  off the loop body: a ParseError-typed read failure adds itself, another read failure
  adds nothing, a row adds the entry of its first failing field if there is one; only a
  row adds a struct.
\<close>

definition read_entries ::
  "(string \<Rightarrow> plain_error + 'f::zero) \<Rightarrow> Marshaler \<Rightarrow> int \<times> read_result \<Rightarrow> ParseErrors" where
  "read_entries ParseFloat m lr =
     (case snd lr of
        ParseFailure pe \<Rightarrow> [pe]
      | OtherFailure e \<Rightarrow> []
      | Row record \<Rightarrow>
          (case decode_fields ParseFloat (fst lr) record (fieldInfos m)
                  (new_struct (endPointStruct m)) of
             row_panic \<Rightarrow> []
           | row_done None v \<Rightarrow> []
           | row_done (Some pe) v \<Rightarrow> [pe]))"

definition read_structs ::
  "(string \<Rightarrow> plain_error + 'f::zero) \<Rightarrow> Marshaler \<Rightarrow> int \<times> read_result
     \<Rightarrow> 'f struct_value list" where
  "read_structs ParseFloat m lr =
     (case snd lr of
        ParseFailure pe \<Rightarrow> []
      | OtherFailure e \<Rightarrow> []
      | Row record \<Rightarrow>
          (case decode_fields ParseFloat (fst lr) record (fieldInfos m)
                  (new_struct (endPointStruct m)) of
             row_panic \<Rightarrow> []
           | row_done e v \<Rightarrow> [v]))"

definition is_Row :: "read_result \<Rightarrow> bool" where
  "is_Row r = (case r of Row record \<Rightarrow> True | ParseFailure pe \<Rightarrow> False | OtherFailure e \<Rightarrow> False)"

section \<open>Concrete inputs\<close>

text \<open>
  The descriptors of \<^verbatim>\<open>TestStruct\<close> with given positions, and the marshaler that
  \<^verbatim>\<open>NewMarshaler\<close> returns for \<^verbatim>\<open>TestStruct\<close> and a row source.
\<close>

definition TestFieldInfos :: "int \<Rightarrow> int \<Rightarrow> int \<Rightarrow> int \<Rightarrow> fieldInfos" where
  "TestFieldInfos p0 p1 p2 p3 =
     [\<lparr>position = p0, headerName = ''FIELD_0'', fieldName = ''Field0'', kind = reflect_String\<rparr>,
      \<lparr>position = p1, headerName = ''FIELD_1'', fieldName = ''Field1'', kind = reflect_Int\<rparr>,
      \<lparr>position = p2, headerName = ''FIELD_2'', fieldName = ''Field2'', kind = reflect_Bool\<rparr>,
      \<lparr>position = p3, headerName = ''FIELD_3'', fieldName = ''Field3'', kind = reflect_Float64\<rparr>]"

definition TestMarshaler :: "read_result list \<Rightarrow> Marshaler" where
  "TestMarshaler r =
     \<lparr>Reader = r, fieldInfos = TestFieldInfos (- 1) (- 1) (- 1) (- 1),
      endPointStruct = TestStruct, errors = [], Lazy = False\<rparr>"

text \<open>A decoded \<^verbatim>\<open>TestStruct\<close>, field by field.\<close>

definition TestStruct_value ::
  "string \<Rightarrow> int \<Rightarrow> bool \<Rightarrow> 'f \<Rightarrow> 'f struct_value" where
  "TestStruct_value f0 f1 f2 f3 =
     [(''Field0'', string_val f0), (''Field1'', int_val reflect_Int f1),
      (''Field2'', bool_val f2), (''Field3'', float_val reflect_Float64 f3),
      (''IngnoredStruct'', bool_val False)]"

text \<open>The header row of the tests, in schema order.\<close>

definition test_header :: read_result where
  "test_header = Row [''FIELD_0'', ''FIELD_1'', ''FIELD_2'', ''FIELD_3'']"

section \<open>Schema extraction: lemmas\<close>

lemma strings_Contains_dash: "strings_Contains s ''-'' = (CHR ''-'' \<in> set s)"
  by (induction s) auto

lemma unit_option_neq: "(x \<noteq> Some ()) = (x = None)"
  by (cases x) auto

lemma dash_free_Nil: "dash_free [] = []"
  by (simp add: dash_free_def)

lemma dash_free_Cons:
  "dash_free (f # fs) = (if CHR ''-'' \<in> set (sfTag f) then dash_free fs else f # dash_free fs)"
  by (simp add: dash_free_def)

lemma dash_free_tags_Nil: "dash_free_tags [] = []"
  by (simp add: dash_free_tags_def dash_free_def)

lemma dash_free_tags_Cons:
  "dash_free_tags (f # fs) =
     (if CHR ''-'' \<in> set (sfTag f) then dash_free_tags fs else sfTag f # dash_free_tags fs)"
  by (simp add: dash_free_tags_def dash_free_def)

lemma loop_step_kept:
  "CHR ''-'' \<notin> set (sfTag f) \<Longrightarrow> hm (sfTag f) = None \<Longrightarrow> sfTag f \<noteq> [] \<Longrightarrow>
   createFieldInfos_loop (f # fs) hm fis =
   createFieldInfos_loop fs (hm(sfTag f \<mapsto> ())) (fis @ [descriptor_of f])"
  by (simp add: strings_Contains_dash descriptor_of_def Let_def)

lemma loop_step_skipped:
  "CHR ''-'' \<in> set (sfTag f) \<Longrightarrow>
   createFieldInfos_loop (f # fs) hm fis = createFieldInfos_loop fs hm fis"
  by (simp add: strings_Contains_dash)

lemma loop_step_duplicate:
  "CHR ''-'' \<notin> set (sfTag f) \<Longrightarrow> hm (sfTag f) \<noteq> None \<Longrightarrow>
   createFieldInfos_loop (f # fs) hm fis =
   Failed (fmt_Errorf (''duplicate csv tag name: '' @ sfTag f))"
  by (simp add: strings_Contains_dash)

lemma loop_step_empty:
  "hm [] = None \<Longrightarrow> sfTag f = [] \<Longrightarrow>
   createFieldInfos_loop (f # fs) hm fis =
   Failed (fmt_Errorf (''empty csv tag for field: '' @ sfName f))"
  by (simp add: Let_def)

declare createFieldInfos_loop.simps(2) [simp del]

lemma loop_ok:
  "distinct (dash_free_tags fs) \<Longrightarrow> [] \<notin> set (dash_free_tags fs) \<Longrightarrow>
   dom hm \<inter> set (dash_free_tags fs) = {} \<Longrightarrow>
   createFieldInfos_loop fs hm fis = Ok (fis @ map descriptor_of (dash_free fs))"
proof (induction fs arbitrary: hm fis)
  case Nil
  then show ?case by (simp add: dash_free_Nil)
next
  case (Cons f fs)
  show ?case
  proof (cases "CHR ''-'' \<in> set (sfTag f)")
    case True
    with Cons show ?thesis
      by (simp add: loop_step_skipped dash_free_Cons dash_free_tags_Cons)
  next
    case False
    from False Cons.prems have fresh: "hm (sfTag f) = None" and ne: "sfTag f \<noteq> []"
      and d: "distinct (dash_free_tags fs)" and e: "[] \<notin> set (dash_free_tags fs)"
      and n: "sfTag f \<notin> set (dash_free_tags fs)"
      and h: "dom hm \<inter> set (dash_free_tags fs) = {}"
      by (auto simp: dash_free_tags_Cons)
    from n h have "dom (hm(sfTag f \<mapsto> ())) \<inter> set (dash_free_tags fs) = {}"
      by auto
    from Cons.IH[OF d e this]
    have "createFieldInfos_loop fs (hm(sfTag f \<mapsto> ())) (fis @ [descriptor_of f])
        = Ok ((fis @ [descriptor_of f]) @ map descriptor_of (dash_free fs))" .
    with False fresh ne show ?thesis
      by (simp add: loop_step_kept dash_free_Cons)
  qed
qed

lemma loop_Ok_only_if:
  "createFieldInfos_loop fs hm fis = Ok out \<Longrightarrow>
   distinct (dash_free_tags fs) \<and> [] \<notin> set (dash_free_tags fs) \<and>
   dom hm \<inter> set (dash_free_tags fs) = {}"
proof (induction fs arbitrary: hm fis)
  case Nil
  then show ?case by (simp add: dash_free_tags_Nil)
next
  case (Cons f fs)
  show ?case
  proof (cases "CHR ''-'' \<in> set (sfTag f)")
    case True
    with Cons show ?thesis
      by (simp add: loop_step_skipped dash_free_tags_Cons)
  next
    case False
    have fresh: "hm (sfTag f) = None"
    proof (rule ccontr)
      assume "hm (sfTag f) \<noteq> None"
      with False Cons.prems show False by (simp add: loop_step_duplicate)
    qed
    have ne: "sfTag f \<noteq> []"
    proof
      assume "sfTag f = []"
      with fresh Cons.prems show False by (simp add: loop_step_empty)
    qed
    from Cons.prems False fresh ne
    have "createFieldInfos_loop fs (hm(sfTag f \<mapsto> ())) (fis @ [descriptor_of f]) = Ok out"
      by (simp add: loop_step_kept)
    from Cons.IH[OF this] fresh ne False show ?thesis
      by (auto simp: dash_free_tags_Cons)
  qed
qed

lemma loop_duplicate:
  "[] \<notin> set (dash_free_tags fs) \<Longrightarrow>
   \<not> distinct (dash_free_tags fs) \<or> dom hm \<inter> set (dash_free_tags fs) \<noteq> {} \<Longrightarrow>
   \<exists>h. h \<in> set (dash_free_tags fs) \<and>
     createFieldInfos_loop fs hm fis = Failed (fmt_Errorf (''duplicate csv tag name: '' @ h))"
proof (induction fs arbitrary: hm fis)
  case Nil
  then show ?case by (simp add: dash_free_tags_Nil)
next
  case (Cons f fs)
  show ?case
  proof (cases "CHR ''-'' \<in> set (sfTag f)")
    case True
    with Cons show ?thesis
      by (simp add: loop_step_skipped dash_free_tags_Cons)
  next
    case False
    show ?thesis
    proof (cases "hm (sfTag f) = None")
      case seen: False
      with False show ?thesis
        by (simp add: loop_step_duplicate dash_free_tags_Cons)
    next
      case True
      from False Cons.prems have ne: "sfTag f \<noteq> []" and ne': "[] \<notin> set (dash_free_tags fs)"
        by (auto simp: dash_free_tags_Cons)
      have "\<not> distinct (dash_free_tags fs) \<or> dom (hm(sfTag f \<mapsto> ())) \<inter> set (dash_free_tags fs) \<noteq> {}"
        using False True Cons.prems(2) by (auto simp: dash_free_tags_Cons)
      from Cons.IH[OF ne' this] obtain h where "h \<in> set (dash_free_tags fs)"
        "createFieldInfos_loop fs (hm(sfTag f \<mapsto> ())) (fis @ [descriptor_of f])
         = Failed (fmt_Errorf (''duplicate csv tag name: '' @ h))" by blast
      with False True ne show ?thesis
        by (auto simp: loop_step_kept dash_free_tags_Cons)
    qed
  qed
qed

lemma loop_empty:
  "sfTag f = [] \<Longrightarrow> distinct (dash_free_tags pre) \<Longrightarrow> [] \<notin> set (dash_free_tags pre) \<Longrightarrow>
   dom hm \<inter> set (dash_free_tags pre) = {} \<Longrightarrow> hm [] = None \<Longrightarrow>
   createFieldInfos_loop (pre @ f # post) hm fis
     = Failed (fmt_Errorf (''empty csv tag for field: '' @ sfName f))"
proof (induction pre arbitrary: hm fis)
  case Nil
  then show ?case by (simp add: loop_step_empty)
next
  case (Cons g pre)
  show ?case
  proof (cases "CHR ''-'' \<in> set (sfTag g)")
    case True
    with Cons show ?thesis
      by (simp add: loop_step_skipped dash_free_tags_Cons)
  next
    case False
    from False Cons.prems have fresh: "hm (sfTag g) = None" and ne: "sfTag g \<noteq> []"
      and d: "distinct (dash_free_tags pre)" and e: "[] \<notin> set (dash_free_tags pre)"
      and n: "sfTag g \<notin> set (dash_free_tags pre)"
      and h: "dom hm \<inter> set (dash_free_tags pre) = {}"
      by (auto simp: dash_free_tags_Cons)
    from n h have h': "dom (hm(sfTag g \<mapsto> ())) \<inter> set (dash_free_tags pre) = {}"
      by auto
    from ne Cons.prems have "(hm(sfTag g \<mapsto> ())) [] = None" by auto
    from Cons.IH[OF Cons.prems(1) d e h' this]
    have "createFieldInfos_loop (pre @ f # post) (hm(sfTag g \<mapsto> ())) (fis @ [descriptor_of g])
          = Failed (fmt_Errorf (''empty csv tag for field: '' @ sfName f))" .
    with False fresh ne show ?thesis
      by (simp add: loop_step_kept)
  qed
qed

lemma createFieldInfos_struct:
  "createFieldInfos (go_val reflect_Struct fs) = createFieldInfos_loop fs Map.empty []"
  by (simp add: createFieldInfos_def)

section \<open>Schema extraction: the claims\<close>

text \<open>
  C4, as amended. The source skips a field when \<^verbatim>\<open>strings.Contains(headerName, "-")\<close>
  holds, as its comment says (tags that contain a dash are ignored), not only when the tag
  is the single dash. Stated in full: extraction of a struct succeeds exactly when the
  tags without a dash are non-empty and pairwise distinct, and the schema then holds one
  descriptor for each field whose tag has no dash, in field order, and none for a field
  whose tag has a dash anywhere.
\<close>

theorem C4_dash_anywhere_excludes:
  "createFieldInfos (go_val reflect_Struct fs) = Ok fis \<longleftrightarrow>
     distinct (dash_free_tags fs) \<and> [] \<notin> set (dash_free_tags fs) \<and>
     fis = map descriptor_of (dash_free fs)"
proof
  assume ok: "createFieldInfos (go_val reflect_Struct fs) = Ok fis"
  then have l: "createFieldInfos_loop fs Map.empty [] = Ok fis"
    by (simp add: createFieldInfos_struct)
  from loop_Ok_only_if[OF l]
  have d: "distinct (dash_free_tags fs)" and e: "[] \<notin> set (dash_free_tags fs)"
    by simp_all
  from loop_ok[OF d e, of Map.empty "[]"] l have "fis = map descriptor_of (dash_free fs)"
    by simp
  with d e show "distinct (dash_free_tags fs) \<and> [] \<notin> set (dash_free_tags fs) \<and>
     fis = map descriptor_of (dash_free fs)" by simp
next
  assume "distinct (dash_free_tags fs) \<and> [] \<notin> set (dash_free_tags fs) \<and>
     fis = map descriptor_of (dash_free fs)"
  then show "createFieldInfos (go_val reflect_Struct fs) = Ok fis"
    using loop_ok[of fs Map.empty "[]"] by (simp add: createFieldInfos_struct)
qed

text \<open>
  The theorem at \<^verbatim>\<open>TestStruct\<close>: four descriptors, none for the field tagged with
  the single dash. This is the expectation of \<^verbatim>\<open>TestCsvHeadersValidStructs\<close>.
\<close>

theorem C4_witness:
  "createFieldInfos TestStruct =
     Ok [\<lparr>position = - 1, headerName = ''FIELD_0'', fieldName = ''Field0'', kind = reflect_String\<rparr>,
         \<lparr>position = - 1, headerName = ''FIELD_1'', fieldName = ''Field1'', kind = reflect_Int\<rparr>,
         \<lparr>position = - 1, headerName = ''FIELD_2'', fieldName = ''Field2'', kind = reflect_Bool\<rparr>,
         \<lparr>position = - 1, headerName = ''FIELD_3'', fieldName = ''Field3'', kind = reflect_Float64\<rparr>]"
  unfolding TestStruct_def
  by (subst C4_dash_anywhere_excludes) (simp add: dash_free_tags_def dash_free_def descriptor_of_def)

text \<open>
  C4 as stated fails: the tag \<^verbatim>\<open>FIELD-0\<close> is not the single dash, and it is not
  empty, yet the field is left out of the schema.
\<close>

theorem C4_counterexample:
  "''FIELD-0'' \<noteq> ''-'' \<and>
   createFieldInfos (go_val reflect_Struct
     [\<lparr>sfName = ''Field0'', sfTag = ''FIELD-0'', sfKind = reflect_String\<rparr>]) = Ok []"
  by (simp add: createFieldInfos_def createFieldInfos_loop.simps)

text \<open>
  C7, as amended. (1) A struct whose tags are pairwise distinct, non-empty and free of
  dashes yields one descriptor per field, in field order, each with position -1 and the
  field's tag, name and kind. (2) A value of another kind than Struct fails with
  \<^verbatim>\<open>ErrNoStruct\<close>. (3) When no dash-free tag is empty and two dash-free tags are
  equal, extraction fails with the duplicate-tag error for one of the dash-free tags.
  (4) A field with an empty tag, when the dash-free tags of the fields before it are
  non-empty and distinct, fails with the empty-tag error for that field. The loop stops
  at the first offending field, so (3) and (4) say which error is met first.
\<close>

theorem C7_schema_extraction:
  "(distinct (map sfTag fs) \<and> (\<forall>f \<in> set fs. sfTag f \<noteq> [] \<and> CHR ''-'' \<notin> set (sfTag f)) \<longrightarrow>
      createFieldInfos (go_val reflect_Struct fs) = Ok (map descriptor_of fs) \<and>
      length (map descriptor_of fs) = length fs \<and>
      (\<forall>fi \<in> set (map descriptor_of fs). position fi = - 1)) \<and>
   (k \<noteq> reflect_Struct \<longrightarrow> createFieldInfos (go_val k gs) = Failed ErrNoStruct) \<and>
   ([] \<notin> set (dash_free_tags hs) \<and> \<not> distinct (dash_free_tags hs) \<longrightarrow>
      (\<exists>h. h \<in> set (dash_free_tags hs) \<and>
           createFieldInfos (go_val reflect_Struct hs) =
             Failed (fmt_Errorf (''duplicate csv tag name: '' @ h)))) \<and>
   (sfTag f = [] \<and> distinct (dash_free_tags pre) \<and> [] \<notin> set (dash_free_tags pre) \<longrightarrow>
      createFieldInfos (go_val reflect_Struct (pre @ f # post)) =
        Failed (fmt_Errorf (''empty csv tag for field: '' @ sfName f)))"
proof (intro conjI impI)
  assume a: "distinct (map sfTag fs) \<and> (\<forall>f \<in> set fs. sfTag f \<noteq> [] \<and> CHR ''-'' \<notin> set (sfTag f))"
  then have all: "dash_free fs = fs"
    by (simp add: dash_free_def)
  then have tags: "dash_free_tags fs = map sfTag fs"
    by (simp add: dash_free_tags_def)
  from a have "[] \<notin> set (map sfTag fs)" by auto
  with a tags loop_ok[of fs Map.empty "[]"] all
  show "createFieldInfos (go_val reflect_Struct fs) = Ok (map descriptor_of fs)"
    by (simp add: createFieldInfos_struct)
  show "length (map descriptor_of fs) = length fs" by simp
  show "\<forall>fi \<in> set (map descriptor_of fs). position fi = - 1"
    by (simp add: descriptor_of_def)
next
  assume "k \<noteq> reflect_Struct"
  then show "createFieldInfos (go_val k gs) = Failed ErrNoStruct"
    by (simp add: createFieldInfos_def)
next
  assume a: "[] \<notin> set (dash_free_tags hs) \<and> \<not> distinct (dash_free_tags hs)"
  then show "\<exists>h. h \<in> set (dash_free_tags hs) \<and>
           createFieldInfos (go_val reflect_Struct hs) =
             Failed (fmt_Errorf (''duplicate csv tag name: '' @ h))"
    using loop_duplicate[of hs Map.empty "[]"] by (simp add: createFieldInfos_struct)
next
  assume "sfTag f = [] \<and> distinct (dash_free_tags pre) \<and> [] \<notin> set (dash_free_tags pre)"
  then show "createFieldInfos (go_val reflect_Struct (pre @ f # post)) =
        Failed (fmt_Errorf (''empty csv tag for field: '' @ sfName f))"
    using loop_empty[of f pre Map.empty post "[]"] by (simp add: createFieldInfos_struct)
qed

text \<open>
  The theorem at a well-formed struct and at the invalid inputs of
  \<^verbatim>\<open>TestCsvHeadersInvalidStructs\<close>: a string, a struct with a repeated tag, a struct
  with an empty tag.
\<close>

theorem C7_witness:
  "createFieldInfos (go_val reflect_Struct
      [\<lparr>sfName = ''Field0'', sfTag = ''FIELD_0'', sfKind = reflect_String\<rparr>,
       \<lparr>sfName = ''Field1'', sfTag = ''FIELD_1'', sfKind = reflect_Int\<rparr>])
     = Ok [\<lparr>position = - 1, headerName = ''FIELD_0'', fieldName = ''Field0'', kind = reflect_String\<rparr>,
           \<lparr>position = - 1, headerName = ''FIELD_1'', fieldName = ''Field1'', kind = reflect_Int\<rparr>] \<and>
   createFieldInfos (go_val reflect_String []) = Failed ErrNoStruct \<and>
   createFieldInfos (go_val reflect_Struct
      [\<lparr>sfName = ''Field0'', sfTag = ''FIELD_0'', sfKind = reflect_String\<rparr>,
       \<lparr>sfName = ''Field1'', sfTag = ''FIELD_0'', sfKind = reflect_Int\<rparr>])
     = Failed (fmt_Errorf ''duplicate csv tag name: FIELD_0'') \<and>
   createFieldInfos (go_val reflect_Struct
      [\<lparr>sfName = ''Field0'', sfTag = [], sfKind = reflect_String\<rparr>,
       \<lparr>sfName = ''Field1'', sfTag = ''FIELD_1'', sfKind = reflect_Int\<rparr>])
     = Failed (fmt_Errorf ''empty csv tag for field: Field0'')"
  using C7_schema_extraction
    [of "[\<lparr>sfName = ''Field0'', sfTag = ''FIELD_0'', sfKind = reflect_String\<rparr>,
          \<lparr>sfName = ''Field1'', sfTag = ''FIELD_1'', sfKind = reflect_Int\<rparr>]"
        reflect_String "[]"
        "[\<lparr>sfName = ''Field0'', sfTag = ''FIELD_0'', sfKind = reflect_String\<rparr>,
          \<lparr>sfName = ''Field1'', sfTag = ''FIELD_0'', sfKind = reflect_Int\<rparr>]"
        "\<lparr>sfName = ''Field0'', sfTag = [], sfKind = reflect_String\<rparr>"
        "[]"
        "[\<lparr>sfName = ''Field1'', sfTag = ''FIELD_1'', sfKind = reflect_Int\<rparr>]"]
  by (simp add: dash_free_tags_def dash_free_def descriptor_of_def)

text \<open>
  C7 as stated fails. The tags \<^verbatim>\<open>FIELD-0\<close> and \<^verbatim>\<open>FIELD-1\<close> are distinct, not
  empty and not the single dash, yet the schema is empty instead of holding two
  descriptors. And a struct in which two fields share a tag need not fail with the
  duplicate-tag error: an empty tag met before them decides the error.
\<close>

theorem C7_counterexample:
  "createFieldInfos (go_val reflect_Struct
      [\<lparr>sfName = ''Field0'', sfTag = ''FIELD-0'', sfKind = reflect_String\<rparr>,
       \<lparr>sfName = ''Field1'', sfTag = ''FIELD-1'', sfKind = reflect_Int\<rparr>]) = Ok [] \<and>
   createFieldInfos (go_val reflect_Struct
      [\<lparr>sfName = ''Field0'', sfTag = [], sfKind = reflect_String\<rparr>,
       \<lparr>sfName = ''Field1'', sfTag = ''FIELD_1'', sfKind = reflect_Int\<rparr>,
       \<lparr>sfName = ''Field2'', sfTag = ''FIELD_1'', sfKind = reflect_Int\<rparr>])
     = Failed (fmt_Errorf ''empty csv tag for field: Field0'')"
  by (simp add: createFieldInfos_def createFieldInfos_loop.simps)

section \<open>Decoding a cell: the claims\<close>

text \<open>
  C5, as amended. The source decodes a Bool cell with \<^verbatim>\<open>strconv.ParseBool\<close>, whose
  grammar has twelve literals: the decode yields true for 1, t, T, true, TRUE, True,
  false for 0, f, F, false, FALSE, False, and fails with the ParseBool syntax error on
  every other cell.
\<close>

theorem C5_ParseBool_literals:
  "index_row record p = Some c \<Longrightarrow>
   decode_cell ParseFloat reflect_Bool record p =
     (if c \<in> {''1'', ''t'', ''T'', ''true'', ''TRUE'', ''True''} then cell_value (bool_val True)
      else if c \<in> {''0'', ''f'', ''F'', ''false'', ''FALSE'', ''False''}
      then cell_value (bool_val False)
      else cell_error (NumError ''ParseBool'' c ErrSyntax))"
  by (simp add: decode_cell_def strconv_ParseBool_def)

theorem C5_witness:
  "decode_cell ParseFloat_decimal reflect_Bool [''true'', ''F'', ''yes''] 0 = cell_value (bool_val True) \<and>
   decode_cell ParseFloat_decimal reflect_Bool [''true'', ''F'', ''yes''] 1 = cell_value (bool_val False) \<and>
   decode_cell ParseFloat_decimal reflect_Bool [''true'', ''F'', ''yes''] 2
     = cell_error (NumError ''ParseBool'' ''yes'' ErrSyntax)"
  using C5_ParseBool_literals [of "[''true'', ''F'', ''yes'']" 0 "''true''" ParseFloat_decimal]
        C5_ParseBool_literals [of "[''true'', ''F'', ''yes'']" 1 "''F''" ParseFloat_decimal]
        C5_ParseBool_literals [of "[''true'', ''F'', ''yes'']" 2 "''yes''" ParseFloat_decimal]
  by (simp add: index_row_def)

text \<open>
  C5 as stated fails: the cells \<^verbatim>\<open>1\<close> and \<^verbatim>\<open>TRUE\<close> are neither of the two
  literals of the claim, and both decode.
\<close>

theorem C5_counterexample:
  "decode_cell ParseFloat_decimal reflect_Bool [''1''] 0 = cell_value (bool_val True) \<and>
   decode_cell ParseFloat_decimal reflect_Bool [''TRUE''] 0 = cell_value (bool_val True)"
  by (simp add: decode_cell_def index_row_def strconv_ParseBool_def)

section \<open>Unmarshal: lemmas\<close>

lemma createFieldInfos_Ok_descriptors:
  "createFieldInfos s = Ok fis \<Longrightarrow> \<exists>fs. fis = map descriptor_of fs"
proof (cases s)
  case nil_interface
  assume "createFieldInfos s = Ok fis"
  with nil_interface show ?thesis by (simp add: createFieldInfos_def)
next
  case (go_val k flds)
  assume ok: "createFieldInfos s = Ok fis"
  with go_val have k: "k = reflect_Struct" and l: "createFieldInfos_loop flds Map.empty [] = Ok fis"
    by (auto simp: createFieldInfos_def split: if_splits)
  from loop_Ok_only_if[OF l] loop_ok[of flds Map.empty "[]"] l
  have "fis = map descriptor_of (dash_free flds)" by simp
  then show ?thesis by blast
qed

lemma NewMarshaler_Ok:
  "NewMarshaler s r = Ok m \<Longrightarrow>
   Reader m = r \<and> createFieldInfos s = Ok (fieldInfos m) \<and> endPointStruct m = s \<and>
   errors m = [] \<and> \<not> Lazy m"
  by (auto simp: NewMarshaler_def split: go_result.splits)

lemma NewMarshaler_unresolved:
  "NewMarshaler s r = Ok m \<Longrightarrow> fi \<in> set (fieldInfos m) \<Longrightarrow> position fi = - 1"
proof -
  assume "NewMarshaler s r = Ok m" and fi: "fi \<in> set (fieldInfos m)"
  then have "createFieldInfos s = Ok (fieldInfos m)" by (simp add: NewMarshaler_Ok)
  then obtain fs where "fieldInfos m = map descriptor_of fs"
    using createFieldInfos_Ok_descriptors by blast
  with fi show ?thesis by (auto simp: descriptor_of_def)
qed

lemma pos_from_notin: "item \<notin> set s \<Longrightarrow> pos_from i s item = - 1"
  by (induction s arbitrary: i) auto

lemma pos_from_in:
  "item \<in> set s \<Longrightarrow> i \<le> pos_from i s item \<and> pos_from i s item < i + int (length s)"
proof (induction s arbitrary: i)
  case Nil
  then show ?case by simp
next
  case (Cons v s)
  show ?case
  proof (cases "item = v")
    case True
    then show ?thesis by simp
  next
    case False
    with Cons.prems have "item \<in> set s" by simp
    from Cons.IH[OF this, of "i + 1"] False show ?thesis by simp
  qed
qed

lemma pos_notin: "item \<notin> set s \<Longrightarrow> pos s item = - 1"
  by (simp add: pos_def pos_from_notin)

lemma pos_in: "item \<in> set s \<Longrightarrow> 0 \<le> pos s item \<and> pos s item < int (length s)"
  using pos_from_in[of item s 0] by (simp add: pos_def)

lemma isComplete_iff: "isComplete fis = (\<forall>fi \<in> set fis. 0 \<le> position fi)"
  by (induction fis) auto

lemma resolve_header_missing:
  "fi \<in> set fis \<Longrightarrow> position fi < 0 \<Longrightarrow> headerName fi \<notin> set hdr \<Longrightarrow>
   \<not> isComplete (resolve_header hdr fis)"
proof -
  assume fi: "fi \<in> set fis" and neg: "position fi < 0" and miss: "headerName fi \<notin> set hdr"
  from miss have "pos hdr (headerName fi) = - 1" by (rule pos_notin)
  with fi have "fi \<in> set (resolve_header hdr fis)"
    by (force simp: resolve_header_def)
  moreover from neg have "\<not> 0 \<le> position fi" by simp
  ultimately show ?thesis unfolding isComplete_iff by blast
qed

lemma resolve_header_in_range:
  assumes fresh: "\<forall>fi \<in> set fis. position fi < 0"
    and complete: "isComplete (resolve_header hdr fis)"
    and g: "g \<in> set (resolve_header hdr fis)"
  shows "0 \<le> position g \<and> position g < int (length hdr)"
proof -
  from g obtain fi where fi: "fi \<in> set fis"
    and gdef: "g = (if pos hdr (headerName fi) \<ge> 0
                    then fi\<lparr>position := pos hdr (headerName fi)\<rparr> else fi)"
    by (auto simp: resolve_header_def)
  from complete g have nonneg: "0 \<le> position g" by (simp add: isComplete_iff)
  show ?thesis
  proof (cases "headerName fi \<in> set hdr")
    case True
    from pos_in[OF True] gdef show ?thesis by simp
  next
    case False
    then have "pos hdr (headerName fi) = - 1" by (rule pos_notin)
    with gdef have "g = fi" by simp
    with fresh fi nonneg show ?thesis by auto
  qed
qed

lemma decode_cell_no_panic:
  "index_row record p \<noteq> None \<Longrightarrow> decode_cell pf k record p \<noteq> index_panic"
  by (auto simp: decode_cell_def split: option.splits sum.splits)

lemma decode_fields_no_panic:
  "\<forall>fi \<in> set fis. index_row record (position fi) \<noteq> None \<Longrightarrow>
   decode_fields pf line record fis sPtr \<noteq> row_panic"
proof (induction fis arbitrary: sPtr)
  case Nil
  then show ?case by simp
next
  case (Cons fi fis)
  then have "decode_cell pf (kind fi) record (position fi) \<noteq> index_panic"
    by (simp add: decode_cell_no_panic)
  with Cons show ?case
    by (cases "decode_cell pf (kind fi) record (position fi)") simp_all
qed

lemma index_row_in_range:
  "0 \<le> p \<Longrightarrow> p < int (length record) \<Longrightarrow> index_row record p \<noteq> None"
  by (simp add: index_row_def)

lemma Unmarshal_loop_no_panic:
  "1 \<le> line \<Longrightarrow>
   \<forall>fi \<in> set (fieldInfos m). 0 \<le> position fi \<and> position fi < int n \<Longrightarrow>
   \<forall>record. Row record \<in> set reads \<longrightarrow> length record = n \<Longrightarrow>
   Unmarshal_loop pf m line structs reads \<noteq> Panic"
proof (induction reads arbitrary: m line structs)
  case Nil
  then show ?case by simp
next
  case (Cons r reads)
  from Cons.prems have rest: "\<forall>record. Row record \<in> set reads \<longrightarrow> length record = n"
    by simp
  from Cons.prems have line': "1 \<le> line + 1" by simp
  show ?case
  proof (cases r)
    case (Row cells)
    with Cons.prems have len: "length cells = n" by simp
    with Cons.prems have "\<forall>fi \<in> set (fieldInfos m). index_row cells (position fi) \<noteq> None"
      by (simp add: index_row_in_range)
    then have np: "decode_fields pf (line + 1) cells (fieldInfos m)
                     (new_struct (endPointStruct m)) \<noteq> row_panic"
      by (rule decode_fields_no_panic)
    then obtain e v where d: "decode_fields pf (line + 1) cells (fieldInfos m)
                     (new_struct (endPointStruct m)) = row_done e v"
      by (cases "decode_fields pf (line + 1) cells (fieldInfos m)
                     (new_struct (endPointStruct m))") auto
    show ?thesis
    proof (cases e)
      case None
      with Row d Cons.prems(1) Cons.IH[OF line' Cons.prems(2) rest] show ?thesis by simp
    next
      case (Some pe)
      have "\<forall>fi \<in> set (fieldInfos (m\<lparr>errors := errors m @ [pe]\<rparr>)).
              0 \<le> position fi \<and> position fi < int n"
        using Cons.prems(2) by simp
      from Cons.IH[OF line' this rest] Row d Some Cons.prems(1) show ?thesis by simp
    qed
  next
    case (ParseFailure pe)
    have "\<forall>fi \<in> set (fieldInfos (m\<lparr>errors := errors m @ [pe]\<rparr>)).
              0 \<le> position fi \<and> position fi < int n"
      using Cons.prems(2) by simp
    from Cons.IH[OF line' this rest] ParseFailure show ?thesis by simp
  next
    case (OtherFailure e)
    with Cons.IH[OF line' Cons.prems(2) rest] show ?thesis by simp
  qed
qed

lemma read_entries_errors [simp]:
  "read_entries pf (m\<lparr>errors := es\<rparr>) = read_entries pf m"
proof
  fix lr show "read_entries pf (m\<lparr>errors := es\<rparr>) lr = read_entries pf m lr"
    by (cases "snd lr") (simp_all add: read_entries_def)
qed

lemma read_structs_errors [simp]:
  "read_structs pf (m\<lparr>errors := es\<rparr>) = read_structs pf m"
proof
  fix lr show "read_structs pf (m\<lparr>errors := es\<rparr>) lr = read_structs pf m lr"
    by (cases "snd lr") (simp_all add: read_structs_def)
qed

lemma read_entries_simps [simp]:
  "read_entries pf m (l, ParseFailure pe) = [pe]"
  "read_entries pf m (l, OtherFailure e) = []"
  "decode_fields pf l cells (fieldInfos m) (new_struct (endPointStruct m)) = row_done None v
     \<Longrightarrow> read_entries pf m (l, Row cells) = []"
  "decode_fields pf l cells (fieldInfos m) (new_struct (endPointStruct m)) = row_done (Some pe) v
     \<Longrightarrow> read_entries pf m (l, Row cells) = [pe]"
  by (simp_all add: read_entries_def)

lemma read_structs_simps [simp]:
  "read_structs pf m (l, ParseFailure pe) = []"
  "read_structs pf m (l, OtherFailure e) = []"
  "decode_fields pf l cells (fieldInfos m) (new_struct (endPointStruct m)) = row_done err v
     \<Longrightarrow> read_structs pf m (l, Row cells) = [v]"
  by (simp_all add: read_structs_def)

lemma Unmarshal_loop_data_rows:
  "1 \<le> line \<Longrightarrow> Lazy m \<or> (\<forall>r \<in> set reads. is_Row r) \<Longrightarrow>
   Unmarshal_loop pf m line structs reads \<noteq> Panic \<Longrightarrow>
   Unmarshal_loop pf m line structs reads =
     Return (structs @ concat (map (read_structs pf m) (numbered line reads)))
            (aggregate (errors m @ concat (map (read_entries pf m) (numbered line reads))))"
proof (induction reads arbitrary: m line structs)
  case Nil
  then show ?case by (simp add: aggregate_def)
next
  case (Cons r reads)
  from Cons.prems have line': "1 \<le> line + 1" by simp
  show ?case
  proof (cases r)
    case (Row cells)
    from Cons.prems(2) have mode: "Lazy m \<or> (\<forall>r \<in> set reads. is_Row r)" by auto
    show ?thesis
    proof (cases "decode_fields pf (line + 1) cells (fieldInfos m)
                     (new_struct (endPointStruct m))")
      case row_panic
      with Row Cons.prems show ?thesis by simp
    next
      case (row_done e v)
      show ?thesis
      proof (cases e)
        case None
        from Row row_done None Cons.prems have
          "Unmarshal_loop pf m (line + 1) (structs @ [v]) reads \<noteq> Panic" by simp
        from Cons.IH[OF line' mode this] Row row_done None Cons.prems(1)
        show ?thesis by simp
      next
        case (Some pe)
        have mode': "Lazy (m\<lparr>errors := errors m @ [pe]\<rparr>) \<or> (\<forall>r \<in> set reads. is_Row r)"
          using mode by simp
        from Row row_done Some Cons.prems have
          "Unmarshal_loop pf (m\<lparr>errors := errors m @ [pe]\<rparr>) (line + 1) (structs @ [v]) reads
            \<noteq> Panic" by simp
        from Cons.IH[OF line' mode' this] Row row_done Some Cons.prems(1)
        show ?thesis by simp
      qed
    qed
  next
    case (ParseFailure pe)
    with Cons.prems(2) have lazy: "Lazy m" by (auto simp: is_Row_def)
    then have mode': "Lazy (m\<lparr>errors := errors m @ [pe]\<rparr>) \<or> (\<forall>r \<in> set reads. is_Row r)"
      by simp
    from ParseFailure lazy Cons.prems have
      "Unmarshal_loop pf (m\<lparr>errors := errors m @ [pe]\<rparr>) (line + 1) structs reads \<noteq> Panic"
      by simp
    from Cons.IH[OF line' mode' this] ParseFailure lazy
    show ?thesis by simp
  next
    case (OtherFailure e)
    with Cons.prems(2) have lazy: "Lazy m" by (auto simp: is_Row_def)
    from OtherFailure lazy Cons.prems have
      "Unmarshal_loop pf m (line + 1) structs reads \<noteq> Panic" by simp
    from Cons.IH[OF line' _ this] OtherFailure lazy
    show ?thesis by simp
  qed
qed

lemma Unmarshal_loop_rows_length:
  "1 \<le> line \<Longrightarrow> Unmarshal_loop pf m line structs (map Row rows) = Return rs err \<Longrightarrow>
   length rs = length structs + length rows"
proof (induction rows arbitrary: m line structs)
  case Nil
  then show ?case by (auto split: if_splits)
next
  case (Cons cells rows)
  from Cons.prems have line': "1 \<le> line + 1" by simp
  show ?case
  proof (cases "decode_fields pf (line + 1) cells (fieldInfos m) (new_struct (endPointStruct m))")
    case row_panic
    with Cons.prems show ?thesis by simp
  next
    case (row_done e v)
    show ?thesis
    proof (cases e)
      case None
      with row_done Cons.prems have
        "Unmarshal_loop pf m (line + 1) (structs @ [v]) (map Row rows) = Return rs err" by simp
      from Cons.IH[OF line' this] show ?thesis by simp
    next
      case (Some pe)
      with row_done Cons.prems have
        "Unmarshal_loop pf (m\<lparr>errors := errors m @ [pe]\<rparr>) (line + 1) (structs @ [v])
           (map Row rows) = Return rs err" by simp
      from Cons.IH[OF line' this] show ?thesis by simp
    qed
  qed
qed

lemma aggregate_nonempty: "es \<noteq> [] \<Longrightarrow> aggregate es = ParseErrors_val es"
  by (simp add: aggregate_def)

section \<open>Evaluation on the concrete inputs\<close>

lemmas eval_defs = resolve_header_def pos_def new_struct_def zero_value_def int_kind_def
  float_kind_def decode_cell_def index_row_def SetField_def strconv_ParseBool_def
  strconv_Atoi_def strconv_ParseInt_def strconv_ParseUint_def is_digit_def digit_val_def
  maxUint64_def TestStruct_def TestFieldInfos_def TestStruct_value_def test_header_def

lemma NewMarshaler_TestStruct: "NewMarshaler TestStruct r = Ok (TestMarshaler r)"
  by (simp add: NewMarshaler_def createFieldInfos_def createFieldInfos_loop.simps
      TestMarshaler_def TestFieldInfos_def TestStruct_def)

lemma decode_all_TestStruct:
  "decode_all pf TestStruct lazy r = Ok (Unmarshal pf ((TestMarshaler r)\<lparr>Lazy := lazy\<rparr>))"
  by (simp add: decode_all_def NewMarshaler_TestStruct)

lemma ParseFloat_decimal_samples:
  "ParseFloat_decimal ''1.14'' = Inr (57 / 50)"
  "ParseFloat_decimal ''2.14'' = Inr (107 / 50)"
  "ParseFloat_decimal ''3.14'' = Inr (157 / 50)"
  "ParseFloat_decimal ''not.valid'' = Inl (NumError ''ParseFloat'' ''not.valid'' ErrSyntax)"
  by (simp_all add: ParseFloat_decimal_def is_digit_def digit_val_def decimal_nat_def)

section \<open>Unmarshal: the claims\<close>

text \<open>
  C1, as amended. In strict mode (\<^verbatim>\<open>Lazy = false\<close>) a field that fails to decode
  does not abort the call: the entry of the first failing field is appended to
  \<^verbatim>\<open>m.errors\<close>, the struct with the fields set so far is appended to the output and
  the loop goes on with the next read; when every later read is a row and no index is out
  of range, the call returns the records collected before, this row's struct and those of
  the later rows, together with the aggregate that holds the entry. What aborts at once
  in strict mode, with no records and that single error, is a failure to read a row.
  The test of the three wrong-typed rows runs with \<^verbatim>\<open>Lazy\<close> unset and expects an
  aggregate of three entries.
\<close>

theorem C1_strict_decode_failure_is_aggregated:
  assumes strict: "\<not> Lazy m" and line: "1 \<le> line"
    and failed: "decode_fields pf (line + 1) cells (fieldInfos m) (new_struct (endPointStruct m))
                   = row_done (Some pe) v"
  shows "Unmarshal_loop pf m line structs (Row cells # rest) =
           Unmarshal_loop pf (m\<lparr>errors := errors m @ [pe]\<rparr>) (line + 1) (structs @ [v]) rest \<and>
         ((\<forall>r \<in> set rest. is_Row r) \<and>
            Unmarshal_loop pf m line structs (Row cells # rest) \<noteq> Panic \<longrightarrow>
            (\<exists>more es. Unmarshal_loop pf m line structs (Row cells # rest) =
                Return (structs @ v # more) (ParseErrors_val (errors m @ pe # es)))) \<and>
         Unmarshal_loop pf m line structs (ParseFailure rf # rest) = Return [] (ParseError_ptr rf) \<and>
         Unmarshal_loop pf m line structs (OtherFailure e # rest) = Return [] (plain e)"
proof (intro conjI impI)
  from line failed
  show "Unmarshal_loop pf m line structs (Row cells # rest) =
          Unmarshal_loop pf (m\<lparr>errors := errors m @ [pe]\<rparr>) (line + 1) (structs @ [v]) rest"
    by simp
  from strict show "Unmarshal_loop pf m line structs (ParseFailure rf # rest)
      = Return [] (ParseError_ptr rf)" by simp
  from strict show "Unmarshal_loop pf m line structs (OtherFailure e # rest)
      = Return [] (plain e)" by simp
next
  assume a: "(\<forall>r \<in> set rest. is_Row r) \<and>
             Unmarshal_loop pf m line structs (Row cells # rest) \<noteq> Panic"
  then have rows: "Lazy m \<or> (\<forall>r \<in> set (Row cells # rest). is_Row r)"
    by (simp add: is_Row_def)
  from a have np: "Unmarshal_loop pf m line structs (Row cells # rest) \<noteq> Panic" by simp
  from Unmarshal_loop_data_rows[OF line rows np] failed
  have "Unmarshal_loop pf m line structs (Row cells # rest) =
          Return (structs @ v # concat (map (read_structs pf m) (numbered (line + 1) rest)))
            (aggregate (errors m @ pe # concat (map (read_entries pf m) (numbered (line + 1) rest))))"
    by simp
  then show "\<exists>more es. Unmarshal_loop pf m line structs (Row cells # rest) =
                Return (structs @ v # more) (ParseErrors_val (errors m @ pe # es))"
    by (simp add: aggregate_nonempty)
qed

text \<open>
  The theorem after the header of the tests has been resolved, at a row whose integer
  cell is malformed, and at a read failure.
\<close>

theorem C1_witness:
  "Unmarshal_loop ParseFloat_decimal
     ((TestMarshaler [])\<lparr>fieldInfos := TestFieldInfos 0 1 2 3\<rparr>) 1 []
     [Row [''string2'', ''notvalid'', ''true'', ''2.14''], Row [''string3'', ''3'', ''true'', ''3.14'']]
   = Return [TestStruct_value ''string2'' 0 False 0, TestStruct_value ''string3'' 3 True (157 / 50)]
       (ParseErrors_val [\<lparr>Line = 2, Column = 1, Err = NumError ''Atoi'' ''notvalid'' ErrSyntax\<rparr>]) \<and>
   Unmarshal_loop ParseFloat_decimal
     ((TestMarshaler [])\<lparr>fieldInfos := TestFieldInfos 0 1 2 3\<rparr>) 1 []
     [ParseFailure \<lparr>Line = 2, Column = 0, Err = foreign_error ''csv.ErrFieldCount''\<rparr>,
      Row [''string3'', ''3'', ''true'', ''3.14'']]
   = Return [] (ParseError_ptr \<lparr>Line = 2, Column = 0, Err = foreign_error ''csv.ErrFieldCount''\<rparr>)"
  using C1_strict_decode_failure_is_aggregated
    [of "(TestMarshaler [])\<lparr>fieldInfos := TestFieldInfos 0 1 2 3\<rparr>" 1 ParseFloat_decimal
        "[''string2'', ''notvalid'', ''true'', ''2.14'']"
        "\<lparr>Line = 2, Column = 1, Err = NumError ''Atoi'' ''notvalid'' ErrSyntax\<rparr>"
        "TestStruct_value ''string2'' 0 False 0" "[]"
        "[Row [''string3'', ''3'', ''true'', ''3.14'']]"
        "\<lparr>Line = 2, Column = 0, Err = foreign_error ''csv.ErrFieldCount''\<rparr>"]
  by (simp add: TestMarshaler_def eval_defs ParseFloat_decimal_samples)

text \<open>
  C1 as stated fails: in strict mode, with a malformed integer in the second data row,
  the call does not abort. It returns the struct of the first row, the half-filled struct
  of the second and the struct of the third, with an aggregate of one entry.
\<close>

theorem C1_counterexample:
  "decode_all ParseFloat_decimal TestStruct False
     [test_header,
      Row [''string1'', ''1'', ''true'', ''1.14''],
      Row [''string2'', ''notvalid'', ''true'', ''2.14''],
      Row [''string3'', ''3'', ''true'', ''3.14'']]
   = Ok (Return [TestStruct_value ''string1'' 1 True (57 / 50),
                 TestStruct_value ''string2'' 0 False 0,
                 TestStruct_value ''string3'' 3 True (157 / 50)]
          (ParseErrors_val [\<lparr>Line = 3, Column = 1, Err = NumError ''Atoi'' ''notvalid'' ErrSyntax\<rparr>]))"
  unfolding decode_all_TestStruct
  by (simp add: TestMarshaler_def Unmarshal_def eval_defs ParseFloat_decimal_samples)

text \<open>
  C2, as amended. Every data row that is read adds exactly one struct to the output,
  also a row in which a field fails to decode: its struct is appended with the fields set
  before the failing one, and the aggregate gets the one entry of that field. In lazy
  mode the input of the tests' header and three data rows with one malformed value each
  yields an aggregate of exactly 3 entries and three partially populated structs.
\<close>

theorem C2_failed_row_still_emitted:
  "(1 \<le> line \<and> Unmarshal_loop ParseFloat m line structs (map Row rows) \<noteq> Panic \<longrightarrow>
      (\<exists>rs. Unmarshal_loop ParseFloat m line structs (map Row rows) =
               Return rs (aggregate (errors m @
                  concat (map (read_entries ParseFloat m) (numbered line (map Row rows))))) \<and>
            length rs = length structs + length rows)) \<and>
   (ParseFloat ''not.valid'' = Inl e \<longrightarrow>
      decode_all ParseFloat TestStruct True
        [test_header,
         Row [''string1'', ''notvalid'', ''true'', ''1.14''],
         Row [''string2'', ''2'', ''notvalid'', ''2.14''],
         Row [''string3'', ''3'', ''true'', ''not.valid'']]
      = Ok (Return [TestStruct_value ''string1'' 0 False 0,
                    TestStruct_value ''string2'' 2 False 0,
                    TestStruct_value ''string3'' 3 True 0]
             (ParseErrors_val
                [\<lparr>Line = 2, Column = 1, Err = NumError ''Atoi'' ''notvalid'' ErrSyntax\<rparr>,
                 \<lparr>Line = 3, Column = 2, Err = NumError ''ParseBool'' ''notvalid'' ErrSyntax\<rparr>,
                 \<lparr>Line = 4, Column = 3, Err = e\<rparr>])))"
proof (intro conjI impI)
  assume a: "1 \<le> line \<and> Unmarshal_loop ParseFloat m line structs (map Row rows) \<noteq> Panic"
  then have line: "1 \<le> line"
    and np: "Unmarshal_loop ParseFloat m line structs (map Row rows) \<noteq> Panic" by simp_all
  have rows: "Lazy m \<or> (\<forall>r \<in> set (map Row rows). is_Row r)"
    by (simp add: is_Row_def)
  from Unmarshal_loop_data_rows[OF line rows np] Unmarshal_loop_rows_length[OF line]
  show "\<exists>rs. Unmarshal_loop ParseFloat m line structs (map Row rows) =
               Return rs (aggregate (errors m @
                  concat (map (read_entries ParseFloat m) (numbered line (map Row rows))))) \<and>
            length rs = length structs + length rows"
    by blast
next
  assume "ParseFloat ''not.valid'' = Inl e"
  then show "decode_all ParseFloat TestStruct True
        [test_header,
         Row [''string1'', ''notvalid'', ''true'', ''1.14''],
         Row [''string2'', ''2'', ''notvalid'', ''2.14''],
         Row [''string3'', ''3'', ''true'', ''not.valid'']]
      = Ok (Return [TestStruct_value ''string1'' 0 False 0,
                    TestStruct_value ''string2'' 2 False 0,
                    TestStruct_value ''string3'' 3 True 0]
             (ParseErrors_val
                [\<lparr>Line = 2, Column = 1, Err = NumError ''Atoi'' ''notvalid'' ErrSyntax\<rparr>,
                 \<lparr>Line = 3, Column = 2, Err = NumError ''ParseBool'' ''notvalid'' ErrSyntax\<rparr>,
                 \<lparr>Line = 4, Column = 3, Err = e\<rparr>]))"
    unfolding decode_all_TestStruct
    by (simp add: TestMarshaler_def Unmarshal_def eval_defs)
qed

theorem C2_witness:
  "decode_all ParseFloat_decimal TestStruct True
        [test_header,
         Row [''string1'', ''notvalid'', ''true'', ''1.14''],
         Row [''string2'', ''2'', ''notvalid'', ''2.14''],
         Row [''string3'', ''3'', ''true'', ''not.valid'']]
      = Ok (Return [TestStruct_value ''string1'' 0 False 0,
                    TestStruct_value ''string2'' 2 False 0,
                    TestStruct_value ''string3'' 3 True 0]
             (ParseErrors_val
                [\<lparr>Line = 2, Column = 1, Err = NumError ''Atoi'' ''notvalid'' ErrSyntax\<rparr>,
                 \<lparr>Line = 3, Column = 2, Err = NumError ''ParseBool'' ''notvalid'' ErrSyntax\<rparr>,
                 \<lparr>Line = 4, Column = 3, Err = NumError ''ParseFloat'' ''not.valid'' ErrSyntax\<rparr>])) \<and>
   (\<exists>rs. Unmarshal_loop ParseFloat_decimal
            ((TestMarshaler [])\<lparr>fieldInfos := TestFieldInfos 0 1 2 3\<rparr>) 1 []
            (map Row [[''string2'', ''2'', ''notvalid'', ''2.14'']])
          = Return rs (ParseErrors_val
               [\<lparr>Line = 2, Column = 2, Err = NumError ''ParseBool'' ''notvalid'' ErrSyntax\<rparr>]) \<and>
          length rs = 1)"
  using C2_failed_row_still_emitted
    [of 1 ParseFloat_decimal "(TestMarshaler [])\<lparr>fieldInfos := TestFieldInfos 0 1 2 3\<rparr>" "[]"
        "[[''string2'', ''2'', ''notvalid'', ''2.14'']]"
        "NumError ''ParseFloat'' ''not.valid'' ErrSyntax"]
  by (simp add: TestMarshaler_def eval_defs ParseFloat_decimal_samples read_entries_def
      aggregate_def)

text \<open>
  C2 as stated fails: in lazy mode the row whose boolean cell is malformed is not left
  out. Its struct, with the two fields set before the failure and the others at their
  zero values, is the second record of the output.
\<close>

theorem C2_counterexample:
  "decode_all ParseFloat_decimal TestStruct True
     [test_header,
      Row [''string1'', ''1'', ''true'', ''1.14''],
      Row [''string2'', ''2'', ''notvalid'', ''2.14'']]
   = Ok (Return [TestStruct_value ''string1'' 1 True (57 / 50),
                 TestStruct_value ''string2'' 2 False 0]
          (ParseErrors_val
             [\<lparr>Line = 3, Column = 2, Err = NumError ''ParseBool'' ''notvalid'' ErrSyntax\<rparr>]))"
  unfolding decode_all_TestStruct
  by (simp add: TestMarshaler_def Unmarshal_def eval_defs ParseFloat_decimal_samples)

text \<open>
  C3, at an input where the source departs from it. In lazy mode the first read fails
  with a \<^verbatim>\<open>*csv.ParseError\<close> and the second read delivers a row. The failure is
  appended and skipped, the counter is then 2, so the header is never resolved and every
  position is still -1: the row is decoded and \<^verbatim>\<open>record[-1]\<close> panics, where the
  claim has the call fail with an error and no records.
\<close>

theorem C3_lazy_first_read_failure_panics:
  "decode_all ParseFloat_decimal TestStruct True
     [ParseFailure \<lparr>Line = 1, Column = 5, Err = foreign_error ''csv.ErrBareQuote''\<rparr>,
      Row [''string1'', ''1'', ''true'', ''1.14'']]
   = Ok Panic"
  unfolding decode_all_TestStruct
  by (simp add: TestMarshaler_def Unmarshal_def eval_defs)

text \<open>
  C6. A marshaler built by \<^verbatim>\<open>NewMarshaler\<close> whose first read is a header row that
  lacks the header name of some descriptor returns no records and the
  \<^verbatim>\<open>*csv.ParseError\<close> that wraps \<^verbatim>\<open>ErrHeaderNotComplete\<close>, whatever the value
  of \<^verbatim>\<open>Lazy\<close>.
\<close>

theorem C6_header_not_complete:
  "NewMarshaler s (Row hdr # rest) = Ok m \<Longrightarrow> fi \<in> set (fieldInfos m) \<Longrightarrow>
   headerName fi \<notin> set hdr \<Longrightarrow>
   Unmarshal pf (m\<lparr>Lazy := lazy\<rparr>) =
     Return [] (ParseError_ptr \<lparr>Line = 0, Column = 0, Err = ErrHeaderNotComplete\<rparr>)"
proof -
  assume new: "NewMarshaler s (Row hdr # rest) = Ok m" and fi: "fi \<in> set (fieldInfos m)"
    and miss: "headerName fi \<notin> set hdr"
  from new have reader: "Reader m = Row hdr # rest" by (simp add: NewMarshaler_Ok)
  from new fi have "position fi = - 1" by (rule NewMarshaler_unresolved)
  then have "position fi < 0" by simp
  from resolve_header_missing[OF fi this miss]
  have "\<not> isComplete (resolve_header hdr (fieldInfos m))" .
  with reader show ?thesis by (simp add: Unmarshal_def)
qed

text \<open>
  The theorem at the input of the test "not enough headers", in strict and in lazy mode.
\<close>

theorem C6_witness:
  "decode_all ParseFloat_decimal TestStruct False
     [Row [''FIELD_0'', ''FIELD_2'', ''FIELD_1''], Row [''string1'', ''true'', ''1'', ''1.14'']]
     = Ok (Return [] (ParseError_ptr \<lparr>Line = 0, Column = 0, Err = ErrHeaderNotComplete\<rparr>)) \<and>
   decode_all ParseFloat_decimal TestStruct True
     [Row [''FIELD_0'', ''FIELD_2'', ''FIELD_1''], Row [''string1'', ''true'', ''1'', ''1.14'']]
     = Ok (Return [] (ParseError_ptr \<lparr>Line = 0, Column = 0, Err = ErrHeaderNotComplete\<rparr>))"
  using C6_header_not_complete [OF NewMarshaler_TestStruct,
      of "\<lparr>position = - 1, headerName = ''FIELD_3'', fieldName = ''Field3'', kind = reflect_Float64\<rparr>"
         "[''FIELD_0'', ''FIELD_2'', ''FIELD_1'']"
         "[Row [''string1'', ''true'', ''1'', ''1.14'']]" ParseFloat_decimal False]
    C6_header_not_complete [OF NewMarshaler_TestStruct,
      of "\<lparr>position = - 1, headerName = ''FIELD_3'', fieldName = ''Field3'', kind = reflect_Float64\<rparr>"
         "[''FIELD_0'', ''FIELD_2'', ''FIELD_1'']"
         "[Row [''string1'', ''true'', ''1'', ''1.14'']]" ParseFloat_decimal True]
  by (simp add: decode_all_TestStruct TestMarshaler_def TestFieldInfos_def)

text \<open>
  C8. For \<^verbatim>\<open>TestStruct\<close>, the input with header FIELD_0;FIELD_1;FIELD_2;FIELD_3 and
  row string1;1;true;1.14 and the input with header FIELD_2;FIELD_1;FIELD_3;FIELD_0 and
  row true;1;1.14;string1 return the same sequence of decoded records, for every
  \<open>ParseFloat\<close> and in both modes; when \<open>ParseFloat\<close> reads 1.14 as \<open>x\<close>, both return
  the one record with the fields string1, 1, true and \<open>x\<close>, and no error.
\<close>

theorem C8_column_order_independent:
  "(\<exists>rs e1 e2.
      decode_all ParseFloat TestStruct lazy
        [Row [''FIELD_0'', ''FIELD_1'', ''FIELD_2'', ''FIELD_3''],
         Row [''string1'', ''1'', ''true'', ''1.14'']] = Ok (Return rs e1) \<and>
      decode_all ParseFloat TestStruct lazy
        [Row [''FIELD_2'', ''FIELD_1'', ''FIELD_3'', ''FIELD_0''],
         Row [''true'', ''1'', ''1.14'', ''string1'']] = Ok (Return rs e2)) \<and>
   (ParseFloat ''1.14'' = Inr x \<longrightarrow>
      decode_all ParseFloat TestStruct lazy
        [Row [''FIELD_0'', ''FIELD_1'', ''FIELD_2'', ''FIELD_3''],
         Row [''string1'', ''1'', ''true'', ''1.14'']]
        = Ok (Return [TestStruct_value ''string1'' 1 True x] nil) \<and>
      decode_all ParseFloat TestStruct lazy
        [Row [''FIELD_2'', ''FIELD_1'', ''FIELD_3'', ''FIELD_0''],
         Row [''true'', ''1'', ''1.14'', ''string1'']]
        = Ok (Return [TestStruct_value ''string1'' 1 True x] nil))"
proof (intro conjI impI)
  show "\<exists>rs e1 e2.
      decode_all ParseFloat TestStruct lazy
        [Row [''FIELD_0'', ''FIELD_1'', ''FIELD_2'', ''FIELD_3''],
         Row [''string1'', ''1'', ''true'', ''1.14'']] = Ok (Return rs e1) \<and>
      decode_all ParseFloat TestStruct lazy
        [Row [''FIELD_2'', ''FIELD_1'', ''FIELD_3'', ''FIELD_0''],
         Row [''true'', ''1'', ''1.14'', ''string1'']] = Ok (Return rs e2)"
  proof (cases "ParseFloat ''1.14''")
    case (Inl e)
    then show ?thesis
      unfolding decode_all_TestStruct
      by (simp add: TestMarshaler_def Unmarshal_def eval_defs)
  next
    case (Inr y)
    then show ?thesis
      unfolding decode_all_TestStruct
      by (simp add: TestMarshaler_def Unmarshal_def eval_defs)
  qed
next
  assume "ParseFloat ''1.14'' = Inr x"
  then show "decode_all ParseFloat TestStruct lazy
        [Row [''FIELD_0'', ''FIELD_1'', ''FIELD_2'', ''FIELD_3''],
         Row [''string1'', ''1'', ''true'', ''1.14'']]
        = Ok (Return [TestStruct_value ''string1'' 1 True x] nil)"
    unfolding decode_all_TestStruct
    by (simp add: TestMarshaler_def Unmarshal_def eval_defs)
next
  assume "ParseFloat ''1.14'' = Inr x"
  then show "decode_all ParseFloat TestStruct lazy
        [Row [''FIELD_2'', ''FIELD_1'', ''FIELD_3'', ''FIELD_0''],
         Row [''true'', ''1'', ''1.14'', ''string1'']]
        = Ok (Return [TestStruct_value ''string1'' 1 True x] nil)"
    unfolding decode_all_TestStruct
    by (simp add: TestMarshaler_def Unmarshal_def eval_defs)
qed

theorem C8_witness:
  "decode_all ParseFloat_decimal TestStruct False
     [Row [''FIELD_0'', ''FIELD_1'', ''FIELD_2'', ''FIELD_3''],
      Row [''string1'', ''1'', ''true'', ''1.14'']]
     = Ok (Return [TestStruct_value ''string1'' 1 True (57 / 50)] nil) \<and>
   decode_all ParseFloat_decimal TestStruct False
     [Row [''FIELD_2'', ''FIELD_1'', ''FIELD_3'', ''FIELD_0''],
      Row [''true'', ''1'', ''1.14'', ''string1'']]
     = Ok (Return [TestStruct_value ''string1'' 1 True (57 / 50)] nil)"
  using C8_column_order_independent [of ParseFloat_decimal False "57 / 50"]
  by (simp add: ParseFloat_decimal_samples)

text \<open>
  C9. For a marshaler built by \<^verbatim>\<open>NewMarshaler\<close> whose first read is a header row
  that resolves every descriptor, and whose later rows all have as many cells as the
  header row (what the row source enforces), every resolved position is an index inside
  every later row, and the call does not panic, in either mode.
\<close>

theorem C9_positions_in_bounds:
  assumes new: "NewMarshaler s (Row hdr # rest) = Ok m"
    and complete: "isComplete (resolve_header hdr (fieldInfos m))"
    and lengths: "\<forall>record. Row record \<in> set rest \<longrightarrow> length record = length hdr"
  shows "(\<forall>fi \<in> set (resolve_header hdr (fieldInfos m)). \<forall>record.
            Row record \<in> set rest \<longrightarrow> index_row record (position fi) \<noteq> None) \<and>
         Unmarshal pf (m\<lparr>Lazy := lazy\<rparr>) \<noteq> Panic"
proof
  from new have fresh: "\<forall>fi \<in> set (fieldInfos m). position fi < 0"
    using NewMarshaler_unresolved by fastforce
  have range: "\<forall>g \<in> set (resolve_header hdr (fieldInfos m)).
                 0 \<le> position g \<and> position g < int (length hdr)"
    using resolve_header_in_range[OF fresh complete] by blast
  with lengths show "\<forall>fi \<in> set (resolve_header hdr (fieldInfos m)). \<forall>record.
            Row record \<in> set rest \<longrightarrow> index_row record (position fi) \<noteq> None"
    by (simp add: index_row_in_range)
  from new have reader: "Reader m = Row hdr # rest" by (simp add: NewMarshaler_Ok)
  have "Unmarshal_loop pf
          (m\<lparr>Lazy := lazy, fieldInfos := resolve_header hdr (fieldInfos m)\<rparr>) 1 [] rest \<noteq> Panic"
    using range lengths by (intro Unmarshal_loop_no_panic[where n = "length hdr"]) simp_all
  with reader complete show "Unmarshal pf (m\<lparr>Lazy := lazy\<rparr>) \<noteq> Panic"
    by (simp add: Unmarshal_def)
qed

theorem C9_witness:
  "index_row [''string1'', ''true'', ''1'', ''1.14''] 3 \<noteq> None \<and>
   decode_all ParseFloat_decimal TestStruct True
     [Row [''FIELD_0'', ''FIELD_2'', ''FIELD_1'', ''FIELD_3''],
      Row [''string1'', ''true'', ''1'', ''1.14'']] \<noteq> Ok Panic"
  using C9_positions_in_bounds [OF NewMarshaler_TestStruct,
      of "[''FIELD_0'', ''FIELD_2'', ''FIELD_1'', ''FIELD_3'']"
         "[Row [''string1'', ''true'', ''1'', ''1.14'']]" ParseFloat_decimal True]
  by (simp add: decode_all_TestStruct TestMarshaler_def TestFieldInfos_def resolve_header_def pos_def)

text \<open>
  C10. In lazy mode a read failure that is not a \<^verbatim>\<open>*csv.ParseError\<close> is skipped
  with \<^verbatim>\<open>m.errors\<close>, the output and the descriptors unchanged; only the line counter
  moves. Past the header, the error returned at the end of input is the aggregate of the
  entries already in \<^verbatim>\<open>m.errors\<close> followed, read by read, by the ParseError-typed
  read failures and the entries of the rows with a failing field, and by nothing else.
\<close>

theorem C10_other_failure_leaves_no_entry:
  "Lazy m \<Longrightarrow>
   Unmarshal_loop pf m line structs (OtherFailure e # rest) =
     Unmarshal_loop pf m (line + 1) structs rest \<and>
   (1 \<le> line \<and> Unmarshal_loop pf m line structs reads \<noteq> Panic \<longrightarrow>
      (\<exists>rs. Unmarshal_loop pf m line structs reads =
         Return rs (aggregate (errors m @
            concat (map (read_entries pf m) (numbered line reads))))))"
proof (intro conjI impI)
  assume lazy: "Lazy m"
  then show "Unmarshal_loop pf m line structs (OtherFailure e # rest) =
     Unmarshal_loop pf m (line + 1) structs rest" by simp
  assume a: "1 \<le> line \<and> Unmarshal_loop pf m line structs reads \<noteq> Panic"
  then have line: "1 \<le> line" and np: "Unmarshal_loop pf m line structs reads \<noteq> Panic"
    by simp_all
  from lazy have mode: "Lazy m \<or> (\<forall>r \<in> set reads. is_Row r)" by simp
  from Unmarshal_loop_data_rows[OF line mode np]
  show "\<exists>rs. Unmarshal_loop pf m line structs reads =
         Return rs (aggregate (errors m @
            concat (map (read_entries pf m) (numbered line reads))))"
    by blast
qed

text \<open>
  The theorem at an I/O error alone, and at an I/O error followed by a field-count error:
  the aggregate holds the second only.
\<close>

theorem C10_witness:
  "Unmarshal_loop ParseFloat_decimal ((TestMarshaler [])\<lparr>Lazy := True\<rparr>) 1 []
     [OtherFailure (foreign_error ''unexpected EOF'')]
   = Unmarshal_loop ParseFloat_decimal ((TestMarshaler [])\<lparr>Lazy := True\<rparr>) 2 [] [] \<and>
   (\<exists>rs. Unmarshal_loop ParseFloat_decimal ((TestMarshaler [])\<lparr>Lazy := True\<rparr>) 1 []
            [OtherFailure (foreign_error ''unexpected EOF''),
             ParseFailure \<lparr>Line = 3, Column = 0, Err = foreign_error ''csv.ErrFieldCount''\<rparr>]
          = Return rs (ParseErrors_val
              [\<lparr>Line = 3, Column = 0, Err = foreign_error ''csv.ErrFieldCount''\<rparr>]))"
  using C10_other_failure_leaves_no_entry
    [of "(TestMarshaler [])\<lparr>Lazy := True\<rparr>" ParseFloat_decimal 1 "[]"
        "foreign_error ''unexpected EOF''" "[]"
        "[OtherFailure (foreign_error ''unexpected EOF''),
          ParseFailure \<lparr>Line = 3, Column = 0, Err = foreign_error ''csv.ErrFieldCount''\<rparr>]"]
  by (simp add: TestMarshaler_def aggregate_def)

end
